theory Spec2Isabelle
  imports Main "HOL-Library.AList"
begin

section \<open>JavaScript values\<close>

text \<open>
  The option objects of the service are JSON-like values: a request body parsed from JSON, or
  the record that \<open>getOptsFromQuery\<close> builds from the query string (where an absent parameter
  is \<open>undefined\<close>). An object is an association list in insertion order; a JavaScript object
  holds each key once, which \<open>wf_val\<close> states. Numbers are integers: no claim computes with
  fractions. Arrays do not occur in the options record and are left out.
\<close>

datatype jsval =
    JUndefined
  | JNull
  | JBool bool
  | JNum int
  | JStr string
  | JObj "(string \<times> jsval) list"

type_synonym jsobj = "(string \<times> jsval) list"

fun wf_val :: "jsval \<Rightarrow> bool" where
  "wf_val (JObj kvs) = (distinct (map fst kvs) \<and> (\<forall>v \<in> snd ` set kvs. wf_val v))"
| "wf_val _ = True"

text \<open>Truthiness, as \<open>if (x)\<close> tests it.\<close>

fun truthy :: "jsval \<Rightarrow> bool" where
  "truthy JUndefined = False"
| "truthy JNull = False"
| "truthy (JBool b) = b"
| "truthy (JNum n) = (n \<noteq> 0)"
| "truthy (JStr s) = (s \<noteq> [])"
| "truthy (JObj kvs) = True"

text \<open>lodash \<open>_.isString\<close> and \<open>_.isNumber\<close>.\<close>

fun isString :: "jsval \<Rightarrow> bool" where
  "isString (JStr s) = True"
| "isString _ = False"

fun isNumber :: "jsval \<Rightarrow> bool" where
  "isNumber (JNum n) = True"
| "isNumber _ = False"

text \<open>Reading a property \<open>object.k\<close> (or \<open>object['k']\<close>) of an object: \<open>undefined\<close> when absent.\<close>

definition getProp :: "jsobj \<Rightarrow> string \<Rightarrow> jsval" where
  "getProp kvs k = (case map_of kvs k of None \<Rightarrow> JUndefined | Some v \<Rightarrow> v)"

text \<open>
  lodash \<open>_.get(value, path)\<close>: walks the path through nested objects and yields \<open>undefined\<close>
  as soon as a step leaves the objects.
\<close>

fun get_path :: "jsval \<Rightarrow> string list \<Rightarrow> jsval" where
  "get_path v [] = v"
| "get_path (JObj kvs) (k # ks) = get_path (getProp kvs k) ks"
| "get_path _ (k # ks) = JUndefined"

subsection \<open>lodash \<open>_.merge\<close>\<close>

text \<open>
  \<open>assignMergeValue\<close> of lodash: a value other than \<open>undefined\<close> is assigned; \<open>undefined\<close> is
  assigned only when the key is not yet in the destination.
\<close>

definition assignMergeValue :: "jsobj \<Rightarrow> string \<Rightarrow> jsval \<Rightarrow> jsobj" where
  "assignMergeValue object k v =
     (if v \<noteq> JUndefined then AList.update k v object
      else if map_of object k \<noteq> None then object
      else object @ [(k, JUndefined)])"

text \<open>
  \<open>_.merge(object, source)\<close> (lodash \<open>baseMerge\<close>/\<open>baseMergeDeep\<close> on plain objects): for each key
  of the source in order, a source value that is an object is merged recursively into the
  destination's value when that is an object, and into a fresh \<open>{}\<close> otherwise; any other source
  value goes through \<open>assignMergeValue\<close>.
\<close>

function merge :: "jsobj \<Rightarrow> jsobj \<Rightarrow> jsobj" where
  "merge object [] = object"
| "merge object ((k, srcValue) # rest) =
     merge (assignMergeValue object k
              (case srcValue of
                 JObj src \<Rightarrow>
                   JObj (merge (case getProp object k of JObj dst \<Rightarrow> dst | _ \<Rightarrow> []) src)
               | _ \<Rightarrow> srcValue))
           rest"
  by pat_completeness auto
termination
  by (relation "measure (\<lambda>(object, source). size (JObj source))") auto

section \<open>Strings and patterns\<close>

text \<open>\<open>String.prototype.endsWith\<close>; it is also what the pattern \<open>/\<dots>$/\<close> tests, since \<open>$\<close>
  without the \<open>m\<close> flag matches at the end of the input only.\<close>

definition endsWith :: "string \<Rightarrow> string \<Rightarrow> bool" where
  "endsWith s suffix =
     (length suffix \<le> length s \<and> drop (length s - length suffix) s = suffix)"

definition startsWith :: "string \<Rightarrow> string \<Rightarrow> bool" where
  "startsWith s prefix = (take (length prefix) s = prefix)"

definition isDigit :: "char \<Rightarrow> bool" where
  "isDigit c = (48 \<le> (of_char c :: nat) \<and> (of_char c :: nat) \<le> 57)"

text \<open>\<open>toLowerCase\<close> on the ASCII letters (header values are ASCII).\<close>

definition lowerChar :: "char \<Rightarrow> char" where
  "lowerChar c =
     (if 65 \<le> (of_char c :: nat) \<and> (of_char c :: nat) \<le> 90
      then char_of ((of_char c :: nat) + 32) else c)"

definition toLowerCase :: "string \<Rightarrow> string" where
  "toLowerCase s = map lowerChar s"

text \<open>The pattern \<open>/\.pdf$/\<close> of \<open>getExistingPdfUrl\<close>: does \<open>raw_url.match(isPDFPattern)\<close> match?\<close>

definition isPDFPattern :: "string \<Rightarrow> bool" where
  "isPDFPattern s = endsWith s ''.pdf''"

text \<open>
  The tail \<open>(\d+\.\d+)\<close> of both arXiv patterns, matched at the start of \<open>s\<close>: the captured
  text. Each \<open>\d+\<close> is greedy, and giving digits back never helps, since the next character
  would again be a digit where \<open>\.\<close> is wanted.
\<close>

definition matchDigitsDotDigits :: "string \<Rightarrow> string option" where
  "matchDigitsDotDigits s =
     (let a = takeWhile isDigit s; r = dropWhile isDigit s in
      if a \<noteq> [] \<and> startsWith r ''.''
      then (let b = takeWhile isDigit (tl r) in
            if b \<noteq> [] then Some (a @ ''.'' @ b) else None)
      else None)"

text \<open>
  \<open>url.pathname.match(/^\/(abs|pdf)\/(\d+\.\d+)/)\<close>: \<open>None\<close> for \<open>null\<close>, otherwise the
  second group \<open>arxivId[2]\<close>.
\<close>

definition arxivIdPattern :: "string \<Rightarrow> string option" where
  "arxivIdPattern path =
     (if startsWith path ''/abs/'' \<or> startsWith path ''/pdf/''
      then matchDigitsDotDigits (drop 5 path) else None)"

text \<open>
  The pattern of the older copy of the resolver,
  \<open>/^https{0,1}:\/\/arxiv.org\/(abs|pdf)\/(\d+\.\d+)/\<close>, applied to the whole URL. Its dot in
  \<open>arxiv.org\<close> is not escaped and matches any character but a line terminator.
\<close>

definition arxivUrlPattern :: "string \<Rightarrow> string option" where
  "arxivUrlPattern u =
     (let r = (if startsWith u ''https'' then Some (drop 5 u)
               else if startsWith u ''http'' then Some (drop 4 u) else None) in
      case r of
        None \<Rightarrow> None
      | Some r1 \<Rightarrow>
          if startsWith r1 ''://arxiv'' \<and> 8 < length r1
             \<and> r1 ! 8 \<noteq> CHR 0x0A \<and> r1 ! 8 \<noteq> CHR 0x0D
             \<and> startsWith (drop 9 r1) ''org''
          then arxivIdPattern (drop 12 r1) else None)"

section \<open>The existing-PDF resolver (\<open>src/http/pdf-http.js\<close>)\<close>

text \<open>
  What \<open>new URL(raw_url)\<close> yields: the components the WHATWG serialiser needs. \<open>hostname\<close>
  and \<open>pathname\<close> are the properties the resolver reads; \<open>url_toString\<close> is the \<open>href\<close>.
\<close>

record url =
  scheme :: string
  credentials :: string
  hostname :: string
  port :: string
  pathname :: string
  query :: "string option"
  fragment :: "string option"

definition url_toString :: "url \<Rightarrow> string" where
  "url_toString u =
     scheme u @ ''://''
     @ (if credentials u = [] then [] else credentials u @ ''@'')
     @ hostname u
     @ (if port u = [] then [] else '':'' @ port u)
     @ pathname u
     @ (case query u of None \<Rightarrow> [] | Some q \<Rightarrow> ''?'' @ q)
     @ (case fragment u of None \<Rightarrow> [] | Some f \<Rightarrow> ''#'' @ f)"

text \<open>
  The platform the resolver runs on: the URL parser (\<open>None\<close>: the constructor throws) and
  the HEAD request of \<open>node-fetch\<close>, which either fails or answers with headers, of which only
  \<open>content-type\<close> is read (\<open>headers.get\<close> gives \<open>null\<close> for a header that is absent).
\<close>

datatype head_result = NetworkFailure | Response "string option"

record network =
  newURL :: "string \<Rightarrow> url option"
  fetchHead :: "string \<Rightarrow> head_result"

text \<open>
  Everything a call can throw. \<open>CollaboratorError c\<close> is the rejection of the browser call
  \<open>c\<close>.
\<close>

datatype call =
    Launch
  | NewPage
  | SetViewport jsval
  | EmulateMedia string
  | WaitFor jsval
  | Goto jsval jsval
  | Evaluate
  | PdfExport jsval
  | Close

datatype error =
    HttpError nat string
  | TypeError
  | FetchError
  | CollaboratorError call

text \<open>
  The content-type probe, lines 38 to 45: the result and the HEAD requests issued.
  \<open>contentType.toLowerCase()\<close> on the \<open>null\<close> of an absent header throws a \<open>TypeError\<close>.
\<close>

definition probeContentType :: "network \<Rightarrow> string \<Rightarrow> (error + string option) \<times> string list" where
  "probeContentType net raw_url =
     (case fetchHead net raw_url of
        NetworkFailure \<Rightarrow> (Inl FetchError, [raw_url])
      | Response None \<Rightarrow> (Inl TypeError, [raw_url])
      | Response (Some contentType) \<Rightarrow>
          if endsWith (toLowerCase contentType) ''pdf''
          then (Inr (Some raw_url), [raw_url])
          else (Inr None, [raw_url]))"

text \<open>
  \<open>getExistingPdfUrl\<close>. The argument is whatever \<open>opts.url\<close> holds; \<open>raw_url.match\<close> on a value
  that is not a string throws a \<open>TypeError\<close>. \<open>Inr None\<close> is the \<open>null\<close> result. The second
  component lists the HEAD requests issued.
\<close>

definition getExistingPdfUrl :: "network \<Rightarrow> jsval \<Rightarrow> (error + string option) \<times> string list" where
  "getExistingPdfUrl net raw =
     (case raw of
        JStr raw_url \<Rightarrow>
          if isPDFPattern raw_url then (Inr (Some raw_url), [])
          else (case newURL net raw_url of
                  None \<Rightarrow> (Inl TypeError, [])
                | Some url \<Rightarrow>
                    if hostname url = ''arxiv.org'' then
                      (case arxivIdPattern (pathname url) of
                         Some arxivId \<Rightarrow> (Inr (Some (''https://arxiv.org/pdf/'' @ arxivId)), [])
                       | None \<Rightarrow> probeContentType net raw_url)
                    else if hostname url = ''openreview.net'' then
                      (if pathname url = ''/forum'' \<or> pathname url = ''/pdf''
                       then (Inr (Some (url_toString (url\<lparr>pathname := ''/pdf''\<rparr>))), [])
                       else probeContentType net raw_url)
                    else probeContentType net raw_url)
      | _ \<Rightarrow> (Inl TypeError, []))"

text \<open>The older copy of the resolver, which matches the arXiv pattern on the whole URL.\<close>

definition getExistingPdfUrl_old :: "network \<Rightarrow> jsval \<Rightarrow> (error + string option) \<times> string list" where
  "getExistingPdfUrl_old net raw =
     (case raw of
        JStr url \<Rightarrow>
          if isPDFPattern url then (Inr (Some url), [])
          else (case arxivUrlPattern url of
                  Some arxivId \<Rightarrow> (Inr (Some (''https://arxiv.org/pdf/'' @ arxivId)), [])
                | None \<Rightarrow> probeContentType net url)
      | _ \<Rightarrow> (Inl TypeError, []))"

section \<open>The render call (\<open>render\<close> and \<open>scrollPage\<close>)\<close>

text \<open>
  The browser engine is a collaborator: each call is recorded, in order, and either succeeds
  or rejects, as \<open>fails\<close> says. \<open>pdf_bytes\<close> is what \<open>page.pdf\<close> returns after the calls made
  so far.
\<close>

record browser =
  fails :: "call \<Rightarrow> bool"
  pdf_bytes :: "call list \<Rightarrow> string"

type_synonym 'a action = "call list \<Rightarrow> (error + 'a) \<times> call list"

definition yield :: "'a \<Rightarrow> 'a action" where
  "yield x = (\<lambda>tr. (Inr x, tr))"

text \<open>\<open>await m; f\<close>: a rejection of \<open>m\<close> leaves the function at once.\<close>

definition andThen :: "'a action \<Rightarrow> ('a \<Rightarrow> 'b action) \<Rightarrow> 'b action" where
  "andThen m f = (\<lambda>tr. case m tr of (Inl e, tr') \<Rightarrow> (Inl e, tr') | (Inr x, tr') \<Rightarrow> f x tr')"

definition await_call :: "browser \<Rightarrow> call \<Rightarrow> unit action" where
  "await_call b c =
     (\<lambda>tr. (if fails b c then Inl (CollaboratorError c) else Inr (), tr @ [c]))"

definition page_pdf :: "browser \<Rightarrow> jsval \<Rightarrow> string action" where
  "page_pdf b arg =
     (\<lambda>tr. (if fails b (PdfExport arg) then Inl (CollaboratorError (PdfExport arg))
             else Inr (pdf_bytes b (tr @ [PdfExport arg])), tr @ [PdfExport arg]))"

text \<open>The defaults that \<open>render\<close> merges the given options over.\<close>

definition render_defaults :: jsobj where
  "render_defaults =
     [(''scrollPage'', JBool False),
      (''emulateMedia'', JBool False),
      (''viewport'', JObj [(''width'', JNum 1600), (''height'', JNum 1200)]),
      (''goto'', JObj [(''waitUntil'', JStr ''networkidle''), (''networkIdleTimeout'', JNum 2000)]),
      (''pdf'', JObj [(''format'', JStr ''A4''), (''printBackground'', JBool True)])]"

definition render_opts :: "jsobj \<Rightarrow> jsobj" where
  "render_opts given = merge render_defaults given"

text \<open>
  \<open>scrollPage(page)\<close> is a single \<open>page.evaluate\<close>; the function it ships into the page is
  modelled in the next section, and the rejection of its promise is the failure of this call.
\<close>

definition scrollPage :: "browser \<Rightarrow> unit action" where
  "scrollPage b = await_call b Evaluate"

text \<open>\<open>render\<close>, given its argument \<open>_opts\<close>: the result (the PDF bytes, or what was thrown)
  and the browser calls made.\<close>

definition render :: "browser \<Rightarrow> jsobj \<Rightarrow> (error + string) \<times> call list" where
  "render b given =
     (let opts = render_opts given in
      andThen (await_call b Launch) (\<lambda>_.
      andThen (await_call b NewPage) (\<lambda>_.
      andThen (await_call b (SetViewport (getProp opts ''viewport''))) (\<lambda>_.
      andThen (if truthy (getProp opts ''emulateMedia'')
               then await_call b (EmulateMedia ''screen'') else yield ()) (\<lambda>_.
      andThen (if isNumber (getProp opts ''waitFor'') \<or> isString (getProp opts ''waitFor'')
               then await_call b (WaitFor (getProp opts ''waitFor'')) else yield ()) (\<lambda>_.
      andThen (await_call b (Goto (getProp opts ''url'') (getProp opts ''goto''))) (\<lambda>_.
      andThen (if truthy (getProp opts ''scrollPage'') then scrollPage b else yield ()) (\<lambda>_.
      andThen (page_pdf b (getProp opts ''pdf'')) (\<lambda>data.
      andThen (await_call b Close) (\<lambda>_.
      yield data))))))))) [])"

section \<open>The scroll function run inside the page\<close>

text \<open>
  The page as the function sees it: \<open>window.innerHeight\<close>, the scroll offset the page starts
  with, and \<open>document.body.scrollHeight\<close> as it stands during the \<open>k\<close>-th run of
  \<open>scrollDown\<close> (\<open>k = 0\<close> is the first run; a page that loads content while it is scrolled
  grows). Timers are ideal: a callback runs at its due time, in no time, and of two timers
  due together the one set first runs first.
\<close>

record page =
  innerHeight :: int
  initialOffset :: int
  scrollHeight :: "nat \<Rightarrow> int"

datatype callback = CbReject | CbResolve | CbScrollDown

datatype settlement = Resolved | Rejected

record window =
  now :: nat
  timers :: "(nat \<times> callback) list"
  pageYOffset :: int
  runs :: nat
  promise :: "(settlement \<times> nat) option"

definition setTimeout :: "callback \<Rightarrow> nat \<Rightarrow> window \<Rightarrow> window" where
  "setTimeout cb delay w = w\<lparr>timers := timers w @ [(now w + delay, cb)]\<rparr>"

text \<open>\<open>window.scrollTo(0, y)\<close>: the browser keeps the offset within the scrollable range.\<close>

definition scrollTo :: "page \<Rightarrow> int \<Rightarrow> window \<Rightarrow> window" where
  "scrollTo pg y w =
     w\<lparr>pageYOffset := max 0 (min y (scrollHeight pg (runs w) - innerHeight pg))\<rparr>"

definition scrollBy :: "page \<Rightarrow> int \<Rightarrow> window \<Rightarrow> window" where
  "scrollBy pg dy w = scrollTo pg (pageYOffset w + dy) w"

definition bottomPos :: "page \<Rightarrow> window \<Rightarrow> int" where
  "bottomPos pg w = pageYOffset w + innerHeight pg"

text \<open>\<open>resolve\<close> and \<open>reject\<close>: only the first settlement of a promise counts.\<close>

definition settle :: "settlement \<Rightarrow> window \<Rightarrow> window" where
  "settle r w = (case promise w of None \<Rightarrow> w\<lparr>promise := Some (r, now w)\<rparr> | Some _ \<Rightarrow> w)"

definition scrollDown :: "page \<Rightarrow> window \<Rightarrow> window" where
  "scrollDown pg w =
     (let scrollInterval = 200;
          scrollStep = innerHeight pg - 400;
          bottomThreshold = 400;
          w1 = scrollBy pg scrollStep w
      in if scrollHeight pg (runs w) - bottomPos pg w1 < bottomThreshold
         then (setTimeout CbResolve 500 (scrollTo pg 0 w1))\<lparr>runs := Suc (runs w)\<rparr>
         else (setTimeout CbScrollDown scrollInterval w1)\<lparr>runs := Suc (runs w)\<rparr>)"

fun nextTimer :: "(nat \<times> callback) list \<Rightarrow> (nat \<times> callback) option" where
  "nextTimer [] = None"
| "nextTimer (x # xs) =
     (case nextTimer xs of
        None \<Rightarrow> Some x
      | Some y \<Rightarrow> if fst x \<le> fst y then Some x else Some y)"

definition runCallback :: "page \<Rightarrow> callback \<Rightarrow> window \<Rightarrow> window" where
  "runCallback pg cb w =
     (case cb of
        CbReject \<Rightarrow> settle Rejected w
      | CbResolve \<Rightarrow> settle Resolved w
      | CbScrollDown \<Rightarrow> scrollDown pg w)"

text \<open>One turn of the event loop: the next timer fires. \<open>None\<close>: no timer is left.\<close>

definition fireNext :: "page \<Rightarrow> window \<Rightarrow> window option" where
  "fireNext pg w =
     (case nextTimer (timers w) of
        None \<Rightarrow> None
      | Some (t, cb) \<Rightarrow>
          Some (runCallback pg cb (w\<lparr>now := max (now w) t, timers := remove1 (t, cb) (timers w)\<rparr>)))"

text \<open>
  The event loop runs until the promise is settled, which is when \<open>page.evaluate\<close> returns.
  \<open>None\<close>: it never is.
\<close>

partial_function (option) eventLoop :: "page \<Rightarrow> window \<Rightarrow> window option" where
  "eventLoop pg w =
     (if promise w \<noteq> None then Some w
      else case fireNext pg w of None \<Rightarrow> None | Some w' \<Rightarrow> eventLoop pg w')"

text \<open>
  The promise executor of the function given to \<open>page.evaluate\<close>: \<open>setTimeout(reject, 30000)\<close>,
  then the first \<open>scrollDown()\<close>, then the event loop.
\<close>

definition pageScroll :: "page \<Rightarrow> window option" where
  "pageScroll pg =
     eventLoop pg
       (scrollDown pg
         (setTimeout CbReject 30000
           \<lparr>now = 0, timers = [], pageYOffset = initialOffset pg, runs = 0, promise = None\<rparr>))"

section \<open>The routes (\<open>src/http/pdf-http.js\<close>)\<close>

text \<open>The request as the handlers read it: \<open>req.headers['content-type']\<close>, \<open>req.body\<close>,
  \<open>req.query\<close>.\<close>

record request =
  contentType :: jsval
  body :: jsval
  queryParams :: jsobj

datatype response =
    Redirect string
  | SendPdf "jsval option" string

definition getOptsFromQuery :: "jsobj \<Rightarrow> jsobj" where
  "getOptsFromQuery q =
     [(''url'', getProp q ''url''),
      (''attachmentName'', getProp q ''attachmentName''),
      (''scrollPage'', getProp q ''scrollPage''),
      (''emulateScreenMedia'', getProp q ''emulateScreenMedia''),
      (''ignoreHttpsErrors'', getProp q ''ignoreHttpsErrors''),
      (''waitFor'', getProp q ''waitFor''),
      (''viewport'', JObj
         [(''width'', getProp q ''viewport.width''),
          (''height'', getProp q ''viewport.height''),
          (''deviceScaleFactor'', getProp q ''viewport.deviceScaleFactor''),
          (''isMobile'', getProp q ''viewport.isMobile''),
          (''hasTouch'', getProp q ''viewport.hasTouch''),
          (''isLandscape'', getProp q ''viewport.isLandscape'')]),
      (''goto'', JObj
         [(''timeout'', getProp q ''goto.timeout''),
          (''waitUntil'', getProp q ''goto.waitUntil''),
          (''networkIdleInflight'', getProp q ''goto.networkIdleInflight''),
          (''networkIdleTimeout'', getProp q ''goto.networkIdleTimeout'')]),
      (''pdf'', JObj
         [(''scale'', getProp q ''pdf.scale''),
          (''displayHeaderFooter'', getProp q ''pdf.displayHeaderFooter''),
          (''landscape'', getProp q ''pdf.landscape''),
          (''pageRanges'', getProp q ''pdf.pageRanges''),
          (''format'', getProp q ''pdf.format''),
          (''width'', getProp q ''pdf.width''),
          (''height'', getProp q ''pdf.height''),
          (''margin'', JObj
             [(''top'', getProp q ''pdf.margin.top''),
              (''right'', getProp q ''pdf.margin.right''),
              (''bottom'', getProp q ''pdf.margin.bottom''),
              (''left'', getProp q ''pdf.margin.left'')]),
          (''printBackground'', getProp q ''pdf.printBackground'')])]"

text \<open>
  Modelled from the spec: \<open>ex.throwStatus\<close> of \<open>src/util/express\<close>, which is not among the
  sources. The handler that calls it responds with the given status and message.
\<close>

definition throwStatus :: "nat \<Rightarrow> string \<Rightarrow> error" where
  "throwStatus status message = HttpError status message"

text \<open>
  The part the two handlers share: resolve \<open>opts.url\<close>; redirect on a hit, render otherwise.
  The outcome comes with the HEAD requests and the browser calls made.
\<close>

definition redirectOrRender ::
  "network \<Rightarrow> browser \<Rightarrow> jsobj \<Rightarrow> (error + response) \<times> string list \<times> call list" where
  "redirectOrRender net b opts =
     (case getExistingPdfUrl net (getProp opts ''url'') of
        (Inl e, heads) \<Rightarrow> (Inl e, heads, [])
      | (Inr (Some existingPdfUrl), heads) \<Rightarrow> (Inr (Redirect existingPdfUrl), heads, [])
      | (Inr None, heads) \<Rightarrow>
          (case render b opts of
             (Inl e, calls) \<Rightarrow> (Inl e, heads, calls)
           | (Inr data, calls) \<Rightarrow>
               (Inr (SendPdf (if truthy (getProp opts ''attachmentName'')
                              then Some (getProp opts ''attachmentName'') else None) data),
                heads, calls)))"

definition getRender ::
  "network \<Rightarrow> browser \<Rightarrow> request \<Rightarrow> (error + response) \<times> string list \<times> call list" where
  "getRender net b req = redirectOrRender net b (getOptsFromQuery (queryParams req))"

text \<open>
  \<open>postRender\<close>. \<open>_.cloneDeep(req.body)\<close> is the body itself, a value; past the first check a
  JSON body is an object.
\<close>

definition postRender ::
  "network \<Rightarrow> browser \<Rightarrow> request \<Rightarrow> (error + response) \<times> string list \<times> call list" where
  "postRender net b req =
     (let isBodyJson = (contentType req = JStr ''application/json'');
          hasContent = (isString (get_path (body req) [''url''])
                        \<or> isString (get_path (body req) [''html'']))
      in if isBodyJson \<and> \<not> hasContent
         then (Inl (throwStatus 400 ''Body must contain url or html''), [], [])
         else if \<not> isBodyJson \<and> isString (getProp (queryParams req) ''url'')
         then (Inl (throwStatus 400 ''url query parameter is not allowed when body is HTML''),
               [], [])
         else redirectOrRender net b
                (if isBodyJson then (case body req of JObj kvs \<Rightarrow> kvs | _ \<Rightarrow> [])
                 else AList.update ''html'' (body req) (getOptsFromQuery (queryParams req))))"

section \<open>Notions used to state the properties\<close>

text \<open>
  What \<open>_.merge\<close> leaves under a key, from the destination's value and the source's entry.
\<close>

definition merged_value :: "jsval \<Rightarrow> jsval option \<Rightarrow> jsval" where
  "merged_value objValue srcValue =
     (case srcValue of
        None \<Rightarrow> objValue
      | Some JUndefined \<Rightarrow> objValue
      | Some (JObj src) \<Rightarrow> JObj (merge (case objValue of JObj dst \<Rightarrow> dst | _ \<Rightarrow> []) src)
      | Some v \<Rightarrow> v)"

text \<open>A leaf that is supplied: any value but \<open>undefined\<close> and an object.\<close>

fun is_leaf :: "jsval \<Rightarrow> bool" where
  "is_leaf JUndefined = False"
| "is_leaf (JObj kvs) = False"
| "is_leaf _ = True"

text \<open>
  A leaf that is not supplied: walking the path through nested objects ends at a key that is
  absent or \<open>undefined\<close>. A group given as something else than an object (\<open>viewport: null\<close>)
  does not leave its leaves unset: it replaces the group.
\<close>

fun unset :: "jsval \<Rightarrow> string list \<Rightarrow> bool" where
  "unset v [] = (v = JUndefined)"
| "unset (JObj kvs) (k # ks) = unset (getProp kvs k) ks"
| "unset JUndefined (k # ks) = True"
| "unset _ (k # ks) = False"

fun is_goto :: "call \<Rightarrow> bool" where
  "is_goto (Goto target policy) = True"
| "is_goto _ = False"

text \<open>A browser in which every call succeeds, and one in which navigation fails.\<close>

definition steady_browser :: browser where
  "steady_browser = \<lparr>fails = (\<lambda>c. False), pdf_bytes = (\<lambda>calls. ''%PDF-1.4'')\<rparr>"


text \<open>
  A URL parser for the examples. It covers absolute \<open>http\<close> and \<open>https\<close> URLs with a plain
  host name (no credentials, no port) and takes path, query and fragment as they are written,
  which is what the WHATWG parser yields for the URLs used below (they need no escaping and
  have no dot segments). Anything else is \<open>None\<close> here. The properties of the resolver are
  proved for any parser.
\<close>

definition simple_url :: "string \<Rightarrow> url option" where
  "simple_url s =
     (let sch = (if startsWith s ''https://'' then ''https''
                 else if startsWith s ''http://'' then ''http'' else []);
          rest = drop (length sch + 3) s;
          host = takeWhile (\<lambda>c. c \<noteq> CHR ''/'' \<and> c \<noteq> CHR ''?'' \<and> c \<noteq> CHR ''#'') rest;
          r1 = dropWhile (\<lambda>c. c \<noteq> CHR ''/'' \<and> c \<noteq> CHR ''?'' \<and> c \<noteq> CHR ''#'') rest;
          path = takeWhile (\<lambda>c. c \<noteq> CHR ''?'' \<and> c \<noteq> CHR ''#'') r1;
          r2 = dropWhile (\<lambda>c. c \<noteq> CHR ''?'' \<and> c \<noteq> CHR ''#'') r1;
          r3 = dropWhile (\<lambda>c. c \<noteq> CHR ''#'') r2
      in if sch = [] \<or> host = [] \<or> CHR ''@'' \<in> set host \<or> CHR '':'' \<in> set host then None
         else Some \<lparr>scheme = sch, credentials = [], hostname = toLowerCase host, port = [],
                     pathname = (if path = [] then ''/'' else path),
                     query = (if startsWith r2 ''?''
                              then Some (takeWhile (\<lambda>c. c \<noteq> CHR ''#'') (tl r2)) else None),
                     fragment = (if r3 = [] then None else Some (tl r3))\<rparr>)"

text \<open>
  Three networks: every HEAD request is answered with \<open>content-type: text/html\<close>; with
  \<open>content-type: Application/PDF\<close>; with no \<open>content-type\<close> header at all.
\<close>

definition html_site :: network where
  "html_site = \<lparr>newURL = simple_url, fetchHead = (\<lambda>u. Response (Some ''text/html''))\<rparr>"

definition pdf_site :: network where
  "pdf_site = \<lparr>newURL = simple_url, fetchHead = (\<lambda>u. Response (Some ''Application/PDF''))\<rparr>"

definition bare_site :: network where
  "bare_site = \<lparr>newURL = simple_url, fetchHead = (\<lambda>u. Response None)\<rparr>"

definition unreachable_site :: network where
  "unreachable_site = \<lparr>newURL = simple_url, fetchHead = (\<lambda>u. NetworkFailure)\<rparr>"

subsection \<open>The scroll steps as a sequence\<close>

text \<open>
  The scroll offset after \<open>k\<close> steps of \<open>innerHeight - 400\<close>, each kept within the scrollable
  range of the document as it then stands; the distance from the scroll bottom to the
  document bottom after step \<open>k\<close> (counted from 0); and the stop condition of that step.
\<close>

fun offsetAfter :: "page \<Rightarrow> nat \<Rightarrow> int" where
  "offsetAfter pg 0 = initialOffset pg"
| "offsetAfter pg (Suc k) =
     max 0 (min (offsetAfter pg k + (innerHeight pg - 400)) (scrollHeight pg k - innerHeight pg))"

definition remaining :: "page \<Rightarrow> nat \<Rightarrow> int" where
  "remaining pg k = scrollHeight pg k - (offsetAfter pg (Suc k) + innerHeight pg)"

definition stopsAt :: "page \<Rightarrow> nat \<Rightarrow> bool" where
  "stopsAt pg k = (remaining pg k < 400)"

text \<open>
  The two shapes the window takes between timers: after \<open>k\<close> runs of \<open>scrollDown\<close> that did
  not stop, with the next run due; and after run \<open>k\<close> stopped, with \<open>resolve\<close> due.
\<close>

definition scrolling :: "page \<Rightarrow> nat \<Rightarrow> window" where
  "scrolling pg k =
     \<lparr>now = 200 * (k - 1), timers = [(30000, CbReject), (200 * k, CbScrollDown)],
      pageYOffset = offsetAfter pg k, runs = k, promise = None\<rparr>"

definition settling :: "nat \<Rightarrow> window" where
  "settling k =
     \<lparr>now = 200 * k, timers = [(30000, CbReject), (200 * k + 500, CbResolve)],
      pageYOffset = 0, runs = Suc k, promise = None\<rparr>"

text \<open>
  Three pages in a window 1200px high: a document of 3000px; a feed that grows by 2000px with
  every step; a document of 200000px.
\<close>

definition short_page :: page where
  "short_page = \<lparr>innerHeight = 1200, initialOffset = 0, scrollHeight = (\<lambda>k. 3000)\<rparr>"

definition endless_feed :: page where
  "endless_feed =
     \<lparr>innerHeight = 1200, initialOffset = 0, scrollHeight = (\<lambda>k. 3000 + 2000 * int k)\<rparr>"

definition tall_page :: page where
  "tall_page = \<lparr>innerHeight = 1200, initialOffset = 0, scrollHeight = (\<lambda>k. 200000)\<rparr>"

section \<open>Option normalisation\<close>

lemma getProp_assign:
  "getProp (assignMergeValue object k v) k' =
     (if k' = k then (if v = JUndefined then getProp object k else v) else getProp object k')"
proof (cases "v = JUndefined")
  case True
  then show ?thesis
    by (cases "map_of object k")
       (auto simp: getProp_def assignMergeValue_def map_add_def split: option.splits)
next
  case False
  then show ?thesis
    by (simp add: getProp_def assignMergeValue_def update_conv)
qed

lemma getProp_merge_notin:
  "map_of source k = None \<Longrightarrow> getProp (merge object source) k = getProp object k"
  by (induction object source rule: merge.induct) (auto simp: getProp_assign split: if_splits)

lemma getProp_merge:
  "distinct (map fst source) \<Longrightarrow>
   getProp (merge object source) k = merged_value (getProp object k) (map_of source k)"
proof (induction object source rule: merge.induct)
  case (1 object)
  then show ?case by (simp add: merged_value_def)
next
  case (2 object k' srcValue rest)
  show ?case
  proof (cases "k = k'")
    case True
    with 2 have "map_of rest k = None" by (auto simp: map_of_eq_None_iff)
    then show ?thesis using True
      by (cases srcValue) (simp_all add: getProp_merge_notin getProp_assign merged_value_def)
  next
    case False
    then show ?thesis using 2 by (simp add: getProp_assign)
  qed
qed

lemma getProp_merge_update_other:
  assumes "distinct (map fst given)" and "k \<noteq> k'"
  shows "getProp (merge d (AList.update k' v given)) k = getProp (merge d given) k"
  using assms by (simp add: getProp_merge distinct_update update_conv)

lemma wf_val_lookup: "wf_val (JObj s) \<Longrightarrow> map_of s k = Some v \<Longrightarrow> wf_val v"
  by (auto dest!: map_of_SomeD)

lemma get_path_nonobj: "(\<And>kvs. v \<noteq> JObj kvs) \<Longrightarrow> ks \<noteq> [] \<Longrightarrow> get_path v ks = JUndefined"
  by (cases v; cases ks) auto

lemma get_path_undefined: "get_path JUndefined ks = JUndefined"
  by (cases ks) auto

lemma get_path_empty_obj: "ks \<noteq> [] \<Longrightarrow> get_path (JObj []) ks = JUndefined"
  by (cases ks) (auto simp: getProp_def get_path_undefined)

text \<open>A leaf that the source supplies survives the merge, whatever the destination holds.\<close>

lemma get_path_merge_leaf:
  "wf_val (JObj s) \<Longrightarrow> p \<noteq> [] \<Longrightarrow> is_leaf (get_path (JObj s) p) \<Longrightarrow>
   get_path (JObj (merge d s)) p = get_path (JObj s) p"
proof (induction p arbitrary: d s)
  case Nil
  then show ?case by simp
next
  case (Cons k ks)
  from Cons.prems(1) have dist: "distinct (map fst s)" by simp
  show ?case
  proof (cases "map_of s k")
    case None
    then have "getProp s k = JUndefined" by (simp add: getProp_def)
    with Cons.prems(3) show ?thesis by (simp add: get_path_undefined)
  next
    case (Some v)
    then have gv: "getProp s k = v" by (simp add: getProp_def)
    have wv: "wf_val v" using wf_val_lookup [OF Cons.prems(1) Some] .
    show ?thesis
    proof (cases v)
      case (JObj src)
      with Cons.prems(3) gv have "ks \<noteq> []" by (cases ks) auto
      moreover have "is_leaf (get_path (JObj src) ks)" using Cons.prems(3) gv JObj by simp
      ultimately show ?thesis
        using Cons.IH [of src] wv JObj gv Some
        by (simp add: getProp_merge [OF dist] merged_value_def)
    next
      case JUndefined
      with Cons.prems(3) gv show ?thesis by (simp add: get_path_undefined)
    qed (use Some gv in \<open>simp_all add: getProp_merge [OF dist] merged_value_def\<close>)
  qed
qed

text \<open>A leaf that the source leaves unset keeps the value the destination has for it.\<close>

lemma get_path_merge_unset:
  "wf_val (JObj s) \<Longrightarrow> p \<noteq> [] \<Longrightarrow> unset (JObj s) p \<Longrightarrow>
   get_path (JObj (merge d s)) p = get_path (JObj d) p"
proof (induction p arbitrary: d s)
  case Nil
  then show ?case by simp
next
  case (Cons k ks)
  from Cons.prems(1) have dist: "distinct (map fst s)" by simp
  show ?case
  proof (cases "map_of s k")
    case None
    then show ?thesis by (simp add: getProp_merge [OF dist] merged_value_def)
  next
    case (Some v)
    then have gv: "getProp s k = v" by (simp add: getProp_def)
    have wv: "wf_val v" using wf_val_lookup [OF Cons.prems(1) Some] .
    have u: "unset v ks" using Cons.prems(3) gv by simp
    show ?thesis
    proof (cases v)
      case (JObj src)
      with u have ne: "ks \<noteq> []" by (cases ks) auto
      have u': "unset (JObj src) ks" using u JObj by simp
      have "get_path (JObj (merge dst src)) ks = get_path (JObj dst) ks" for dst
        using Cons.IH [of src dst] wv JObj ne u' by simp
      moreover have "get_path (JObj (case getProp d k of JObj dst \<Rightarrow> dst | _ \<Rightarrow> [])) ks
                      = get_path (getProp d k) ks"
        using ne by (cases "getProp d k") (simp_all add: get_path_empty_obj get_path_nonobj)
      ultimately show ?thesis
        using JObj Some by (simp add: getProp_merge [OF dist] merged_value_def)
    next
      case JUndefined
      then show ?thesis using Some by (simp add: getProp_merge [OF dist] merged_value_def)
    qed (use u in \<open>cases ks; simp\<close>)+
  qed
qed

text \<open>
  C4, as stated, fails. With \<open>viewport: null\<close> the leaf \<open>viewport.width\<close> is absent from the
  options, and it is absent after normalisation too: the \<open>null\<close> has replaced the whole group,
  so the default 1600 is gone. And no option object gets \<open>emulateScreenMedia = false\<close>: the
  defaults of \<open>render\<close> have no such key.
\<close>

theorem render_opts_null_group_loses_defaults:
  "get_path (JObj [(''viewport'', JNull)]) [''viewport'', ''width''] = JUndefined
   \<and> get_path (JObj (render_opts [(''viewport'', JNull)])) [''viewport'', ''width'']
       \<noteq> JNum 1600
   \<and> get_path (JObj [(''viewport'', JNull)]) [''emulateScreenMedia''] = JUndefined
   \<and> get_path (JObj (render_opts [(''viewport'', JNull)])) [''emulateScreenMedia'']
       \<noteq> JBool False"
  by (simp add: render_opts_def render_defaults_def getProp_def assignMergeValue_def)

text \<open>
  C4, amended. For every option object (each key once) and every path: a leaf that is unset,
  with every enclosing group absent, \<open>undefined\<close> or an object, gets the value of the default
  record of \<open>render\<close>, which is \<open>scrollPage = false\<close>, \<open>viewport.width = 1600\<close>,
  \<open>viewport.height = 1200\<close>, \<open>goto.waitUntil = 'networkidle'\<close>,
  \<open>goto.networkIdleTimeout = 2000\<close>, \<open>pdf.format = 'A4'\<close>, \<open>pdf.printBackground = true\<close>; a
  leaf that is supplied (anything but \<open>undefined\<close> and an object, so also \<open>false\<close>, \<open>0\<close> and
  \<open>null\<close>) is kept as it is, at any depth.
\<close>

theorem render_opts_merge:
  assumes "wf_val (JObj given)" and "p \<noteq> []"
  shows "(unset (JObj given) p \<longrightarrow>
            get_path (JObj (render_opts given)) p = get_path (JObj render_defaults) p)
       \<and> (is_leaf (get_path (JObj given) p) \<longrightarrow>
            get_path (JObj (render_opts given)) p = get_path (JObj given) p)
       \<and> get_path (JObj render_defaults) [''scrollPage''] = JBool False
       \<and> get_path (JObj render_defaults) [''viewport'', ''width''] = JNum 1600
       \<and> get_path (JObj render_defaults) [''viewport'', ''height''] = JNum 1200
       \<and> get_path (JObj render_defaults) [''goto'', ''waitUntil''] = JStr ''networkidle''
       \<and> get_path (JObj render_defaults) [''goto'', ''networkIdleTimeout''] = JNum 2000
       \<and> get_path (JObj render_defaults) [''pdf'', ''format''] = JStr ''A4''
       \<and> get_path (JObj render_defaults) [''pdf'', ''printBackground''] = JBool True"
proof -
  have "unset (JObj given) p \<longrightarrow>
          get_path (JObj (render_opts given)) p = get_path (JObj render_defaults) p"
    using assms by (simp add: render_opts_def get_path_merge_unset)
  moreover have "is_leaf (get_path (JObj given) p) \<longrightarrow>
          get_path (JObj (render_opts given)) p = get_path (JObj given) p"
    using assms by (simp add: render_opts_def get_path_merge_leaf)
  ultimately show ?thesis
    by (simp add: render_defaults_def getProp_def)
qed

theorem render_opts_merge_witness:
  "wf_val (JObj [(''scrollPage'', JBool False), (''viewport'', JObj [(''width'', JNum 0)])])
   \<and> get_path (JObj (render_opts
        [(''scrollPage'', JBool False), (''viewport'', JObj [(''width'', JNum 0)])]))
        [''viewport'', ''width''] = JNum 0
   \<and> get_path (JObj (render_opts
        [(''scrollPage'', JBool False), (''viewport'', JObj [(''width'', JNum 0)])]))
        [''viewport'', ''height''] = JNum 1200"
  using render_opts_merge
          [of "[(''scrollPage'', JBool False), (''viewport'', JObj [(''width'', JNum 0)])]"
              "[''viewport'', ''width'']"]
        render_opts_merge
          [of "[(''scrollPage'', JBool False), (''viewport'', JObj [(''width'', JNum 0)])]"
              "[''viewport'', ''height'']"]
  by (simp add: getProp_def)

section \<open>The render call\<close>

lemmas render_unfold =
  render_def andThen_def await_call_def page_pdf_def yield_def scrollPage_def Let_def

lemmas render_eval =
  render_unfold render_opts_def render_defaults_def getProp_def assignMergeValue_def

text \<open>
  The shape of every run of \<open>render\<close>: it returns after a successful \<open>close\<close>, which is then
  the only one; or it fails with the rejection of the call it made last, and \<open>close\<close> has been
  called only if \<open>close\<close> is that call.
\<close>

lemma render_run:
  "(case render b given of
      (Inr data, calls) \<Rightarrow> count_list calls Close = 1
    | (Inl e, calls) \<Rightarrow>
        e = CollaboratorError (last calls) \<and> fails b (last calls)
        \<and> count_list calls Close = (if last calls = Close then 1 else 0))"
  by (auto simp: render_unfold split: if_splits)

lemma render_no_http_error: "fst (render b given) \<noteq> Inl (HttpError s m)"
  using render_run [of b given] by (cases "render b given") (auto split: sum.splits)

lemma render_goto_only_url:
  "\<forall>c \<in> set (snd (render b given)). is_goto c \<longrightarrow>
       c = Goto (getProp (render_opts given) ''url'') (getProp (render_opts given) ''goto'')"
  by (auto simp: render_unfold split: if_splits)

text \<open>The navigation is made as soon as the calls before it have succeeded.\<close>

lemma render_reaches_goto:
  assumes "\<not> fails b Launch" and "\<not> fails b NewPage"
    and "\<not> fails b (SetViewport (getProp (render_opts given) ''viewport''))"
    and "\<not> fails b (EmulateMedia ''screen'')"
    and "\<not> fails b (WaitFor (getProp (render_opts given) ''waitFor''))"
  shows "Goto (getProp (render_opts given) ''url'') (getProp (render_opts given) ''goto'')
           \<in> set (snd (render b given))"
  using assms by (auto simp: render_unfold split: if_splits)

text \<open>\<open>render\<close> reads seven keys of the normalised options and no other.\<close>

lemma render_reads_only:
  assumes "distinct (map fst given)"
    and "k \<notin> {''viewport'', ''emulateMedia'', ''waitFor'', ''url'', ''goto'', ''scrollPage'', ''pdf''}"
  shows "render b (AList.update k v given) = render b given"
proof -
  have "''viewport'' \<noteq> k" "''emulateMedia'' \<noteq> k" "''waitFor'' \<noteq> k" "''url'' \<noteq> k"
    "''goto'' \<noteq> k" "''scrollPage'' \<noteq> k" "''pdf'' \<noteq> k"
    using assms(2) by auto
  then show ?thesis
    by (simp add: render_def render_opts_def Let_def getProp_merge_update_other [OF assms(1)])
qed

lemma render_without_html:
  assumes "distinct (map fst given)"
  shows "render b (AList.update ''html'' h given) = render b given"
  using assms by (rule render_reads_only) simp

lemma render_without_emulateScreenMedia:
  assumes "distinct (map fst given)"
  shows "render b (AList.update ''emulateScreenMedia'' v given) = render b given"
  using assms by (rule render_reads_only) simp

lemma render_opts_url:
  assumes "distinct (map fst given)" and "getProp given ''url'' = JStr u"
  shows "getProp (render_opts given) ''url'' = JStr u"
proof -
  from assms(2) have "map_of given ''url'' = Some (JStr u)"
    by (auto simp: getProp_def split: option.splits)
  then show ?thesis
    by (simp add: render_opts_def getProp_merge [OF assms(1)] merged_value_def)
qed



text \<open>
  C2: the code departs from the claim. \<open>postRender\<close> accepts a body whose only content is
  \<open>html\<close>, sets \<open>opts.html\<close> from a raw body and passes the options on, but \<open>render\<close> never
  reads \<open>opts.html\<close>. Given only \<open>html\<close>, with every call succeeding, it calls \<open>page.goto\<close>
  with the \<open>undefined\<close> that \<open>opts.url\<close> is, and nothing hands the markup to the page. Given
  \<open>url\<close> and \<open>html\<close> in a JSON body, the handler probes the URL and \<open>render\<close> navigates to it;
  the markup is dropped.
\<close>

theorem render_html_only_navigates:
  "render steady_browser [(''html'', JStr ''<h1>Hello</h1>'')] =
     (Inr ''%PDF-1.4'',
      [Launch, NewPage,
       SetViewport (JObj [(''width'', JNum 1600), (''height'', JNum 1200)]),
       Goto JUndefined
            (JObj [(''waitUntil'', JStr ''networkidle''), (''networkIdleTimeout'', JNum 2000)]),
       PdfExport (JObj [(''format'', JStr ''A4''), (''printBackground'', JBool True)]),
       Close])
   \<and> postRender html_site steady_browser
       \<lparr>contentType = JStr ''application/json'',
        body = JObj [(''url'', JStr ''https://example.com/page''),
                     (''html'', JStr ''<h1>Hello</h1>'')],
        queryParams = []\<rparr> =
     (Inr (SendPdf None ''%PDF-1.4''), [''https://example.com/page''],
      [Launch, NewPage,
       SetViewport (JObj [(''width'', JNum 1600), (''height'', JNum 1200)]),
       Goto (JStr ''https://example.com/page'')
            (JObj [(''waitUntil'', JStr ''networkidle''), (''networkIdleTimeout'', JNum 2000)]),
       PdfExport (JObj [(''format'', JStr ''A4''), (''printBackground'', JBool True)]),
       Close])"
proof -
  have "render steady_browser [(''html'', JStr ''<h1>Hello</h1>'')] =
     (Inr ''%PDF-1.4'',
      [Launch, NewPage,
       SetViewport (JObj [(''width'', JNum 1600), (''height'', JNum 1200)]),
       Goto JUndefined
            (JObj [(''waitUntil'', JStr ''networkidle''), (''networkIdleTimeout'', JNum 2000)]),
       PdfExport (JObj [(''format'', JStr ''A4''), (''printBackground'', JBool True)]),
       Close])"
    by (simp add: render_eval steady_browser_def)
  moreover have "postRender html_site steady_browser
       \<lparr>contentType = JStr ''application/json'',
        body = JObj [(''url'', JStr ''https://example.com/page''),
                     (''html'', JStr ''<h1>Hello</h1>'')],
        queryParams = []\<rparr> =
     (Inr (SendPdf None ''%PDF-1.4''), [''https://example.com/page''],
      [Launch, NewPage,
       SetViewport (JObj [(''width'', JNum 1600), (''height'', JNum 1200)]),
       Goto (JStr ''https://example.com/page'')
            (JObj [(''waitUntil'', JStr ''networkidle''), (''networkIdleTimeout'', JNum 2000)]),
       PdfExport (JObj [(''format'', JStr ''A4''), (''printBackground'', JBool True)]),
       Close])"
    by code_simp
  ultimately show ?thesis by (rule conjI)
qed

text \<open>
  What \<open>render\<close> does with any options: setting \<open>html\<close> changes neither its result nor its
  browser calls (lemma \<open>render_without_html\<close>), and the one navigation it makes is
  \<open>page.goto(opts.url, opts.goto)\<close> on the normalised options (lemmas
  \<open>render_goto_only_url\<close> and \<open>render_reaches_goto\<close>).
\<close>

text \<open>
  C3: the code departs from the claim. With \<open>emulateScreenMedia: true\<close> and every call
  succeeding, \<open>render\<close> never calls \<open>page.emulateMedia\<close>: it tests \<open>opts.emulateMedia\<close>, a key
  that \<open>getOptsFromQuery\<close> never sets.
\<close>

theorem render_ignores_emulateScreenMedia:
  "render steady_browser
     [(''url'', JStr ''https://example.com/''), (''emulateScreenMedia'', JBool True)] =
     (Inr ''%PDF-1.4'',
      [Launch, NewPage,
       SetViewport (JObj [(''width'', JNum 1600), (''height'', JNum 1200)]),
       Goto (JStr ''https://example.com/'')
            (JObj [(''waitUntil'', JStr ''networkidle''), (''networkIdleTimeout'', JNum 2000)]),
       PdfExport (JObj [(''format'', JStr ''A4''), (''printBackground'', JBool True)]),
       Close])"
  by (simp add: render_eval steady_browser_def)

text \<open>
  Under the key \<open>emulateMedia\<close> the step is there, and it comes before navigation.
\<close>

lemma render_emulateMedia_before_goto:
  "snd (render steady_browser
     [(''url'', JStr ''https://example.com/''), (''emulateMedia'', JBool True)]) =
      [Launch, NewPage,
       SetViewport (JObj [(''width'', JNum 1600), (''height'', JNum 1200)]),
       EmulateMedia ''screen'',
       Goto (JStr ''https://example.com/'')
            (JObj [(''waitUntil'', JStr ''networkidle''), (''networkIdleTimeout'', JNum 2000)]),
       PdfExport (JObj [(''format'', JStr ''A4''), (''printBackground'', JBool True)]),
       Close]"
  by (simp add: render_eval steady_browser_def)

section \<open>The existing-PDF resolver\<close>

lemmas resolver_eval =
  getExistingPdfUrl_def isPDFPattern_def endsWith_def startsWith_def probeContentType_def
  arxivIdPattern_def matchDigitsDotDigits_def isDigit_def simple_url_def toLowerCase_def
  lowerChar_def url_toString_def Let_def

lemma not_digit_dot: "\<not> isDigit CHR ''.''"
  by (simp add: isDigit_def)

text \<open>On a path that is exactly \<open>/abs/\<close> or \<open>/pdf/\<close>, digits, a dot, digits, the pattern
  captures the whole id.\<close>

lemma matchDigitsDotDigits_exact:
  assumes "a \<noteq> []" "b \<noteq> []" "\<forall>c \<in> set (a @ b). isDigit c"
  shows "matchDigitsDotDigits (a @ ''.'' @ b) = Some (a @ ''.'' @ b)"
proof -
  have a: "\<And>x. x \<in> set a \<Longrightarrow> isDigit x" and b: "\<And>x. x \<in> set b \<Longrightarrow> isDigit x"
    using assms(3) by auto
  have t: "takeWhile isDigit (a @ CHR ''.'' # b) = a"
    using a by (simp add: takeWhile_append2 not_digit_dot)
  have d: "dropWhile isDigit (a @ CHR ''.'' # b) = CHR ''.'' # b"
    using a by (simp add: dropWhile_append2 not_digit_dot)
  have tb: "takeWhile isDigit b = b"
    using b by (simp add: takeWhile_eq_all_conv)
  show ?thesis
    using assms(1,2) by (simp add: matchDigitsDotDigits_def t d tb startsWith_def)
qed

lemma arxivIdPattern_exact:
  assumes "pre = ''/abs/'' \<or> pre = ''/pdf/''" "a \<noteq> []" "b \<noteq> []" "\<forall>c \<in> set (a @ b). isDigit c"
  shows "arxivIdPattern (pre @ a @ ''.'' @ b) = Some (a @ ''.'' @ b)"
  using assms(1) matchDigitsDotDigits_exact [OF assms(2,3,4)]
  by (auto simp: arxivIdPattern_def startsWith_def)

lemma arxiv_known_site:
  assumes "newURL net raw_url = Some u" and "hostname u = ''arxiv.org''"
    and "arxivIdPattern (pathname u) = Some arxivId" and "\<not> endsWith raw_url ''.pdf''"
  shows "getExistingPdfUrl net (JStr raw_url) = (Inr (Some (''https://arxiv.org/pdf/'' @ arxivId)), [])"
  using assms by (simp add: getExistingPdfUrl_def isPDFPattern_def)

text \<open>The probe step, whenever it is reached.\<close>

lemma probe_step:
  "probeContentType net raw_url =
     (case fetchHead net raw_url of
        NetworkFailure \<Rightarrow> (Inl FetchError, [raw_url])
      | Response None \<Rightarrow> (Inl TypeError, [raw_url])
      | Response (Some ct) \<Rightarrow>
          (Inr (if endsWith (toLowerCase ct) ''pdf'' then Some raw_url else None), [raw_url]))"
  by (simp add: probeContentType_def split: head_result.splits option.splits)

lemma getExistingPdfUrl_no_http_error:
  "fst (getExistingPdfUrl net v) \<noteq> Inl (HttpError s m)"
  by (auto simp: getExistingPdfUrl_def probeContentType_def
           split: jsval.splits option.splits head_result.splits)

lemma getExistingPdfUrl_not_string:
  "\<not> isString v \<Longrightarrow> getExistingPdfUrl net v = (Inl TypeError, [])"
  by (cases v) (simp_all add: getExistingPdfUrl_def)

text \<open>The examples of the specification.\<close>

lemma resolve_openreview:
  "getExistingPdfUrl html_site (JStr ''https://openreview.net/forum?id=abc'')
     = (Inr (Some ''https://openreview.net/pdf?id=abc''), [])"
  by (simp add: resolver_eval html_site_def)

lemma resolve_html_page:
  "getExistingPdfUrl html_site (JStr ''https://example.com/page'')
     = (Inr None, [''https://example.com/page''])"
  by (simp add: resolver_eval html_site_def)

lemma resolve_pdf_content_type:
  "getExistingPdfUrl pdf_site (JStr ''https://example.com/page'')
     = (Inr (Some ''https://example.com/page''), [''https://example.com/page''])"
  by code_simp

lemma resolve_unreachable:
  "getExistingPdfUrl unreachable_site (JStr ''https://example.com/page'')
     = (Inl FetchError, [''https://example.com/page''])"
  by (simp add: resolver_eval unreachable_site_def)

subsection \<open>The older copy\<close>

text \<open>
  The older copy has the same extension check and the same probe; it finds the arXiv id on
  URLs written as \<open>http://arxiv.org/\<dots>\<close> or \<open>https://arxiv.org/\<dots>\<close>.
\<close>

lemma pdf_suffix_old_copy:
  "endsWith url ''.pdf'' \<Longrightarrow> getExistingPdfUrl_old net (JStr url) = (Inr (Some url), [])"
  by (simp add: getExistingPdfUrl_old_def isPDFPattern_def)

lemma arxiv_rewrite_old_copy:
  assumes "sch = ''http'' \<or> sch = ''https''" and "pre = ''/abs/'' \<or> pre = ''/pdf/''"
    and "a \<noteq> []" and "b \<noteq> []" and "\<forall>c \<in> set (a @ b). isDigit c"
    and "\<not> endsWith (sch @ ''://arxiv.org'' @ pre @ a @ ''.'' @ b) ''.pdf''"
  shows "getExistingPdfUrl_old net (JStr (sch @ ''://arxiv.org'' @ pre @ a @ ''.'' @ b))
           = (Inr (Some (''https://arxiv.org/pdf/'' @ a @ ''.'' @ b)), [])"
proof -
  have "arxivUrlPattern (sch @ ''://arxiv.org'' @ pre @ a @ ''.'' @ b)
          = arxivIdPattern (pre @ a @ ''.'' @ b)"
    using assms(1) by (auto simp: arxivUrlPattern_def startsWith_def)
  then show ?thesis
    using assms(6) arxivIdPattern_exact [OF assms(2,3,4,5)]
    by (simp add: getExistingPdfUrl_old_def isPDFPattern_def)
qed

lemma resolve_arxiv_old_copy:
  "getExistingPdfUrl_old html_site (JStr ''https://arxiv.org/abs/2101.00001'')
     = (Inr (Some ''https://arxiv.org/pdf/2101.00001''), [])"
  by (simp add: getExistingPdfUrl_old_def arxivUrlPattern_def resolver_eval)

text \<open>
  C6, as stated, fails: the path of \<open>https://example.com/doc.pdf?download=1\<close> ends with
  \<open>.pdf\<close>, but the URL does not, so the resolver goes on to the HEAD request, and on a
  \<open>text/html\<close> answer returns \<open>null\<close>.
\<close>

theorem pdf_path_with_query_is_probed:
  "map_option pathname (newURL html_site ''https://example.com/doc.pdf?download=1'')
     = Some ''/doc.pdf''
   \<and> endsWith ''/doc.pdf'' ''.pdf''
   \<and> getExistingPdfUrl html_site (JStr ''https://example.com/doc.pdf?download=1'')
       = (Inr None, [''https://example.com/doc.pdf?download=1''])"
  by (simp add: resolver_eval html_site_def)

text \<open>
  C6, amended. For every URL string that ends with \<open>.pdf\<close> (case-sensitive, the whole string,
  so nothing follows the extension), the resolver returns the URL unchanged and issues no
  request; the URL is not even parsed.
\<close>

theorem pdf_suffix_short_circuit:
  assumes "endsWith raw_url ''.pdf''"
  shows "getExistingPdfUrl net (JStr raw_url) = (Inr (Some raw_url), [])"
  using assms by (simp add: getExistingPdfUrl_def isPDFPattern_def)

theorem pdf_suffix_short_circuit_witness:
  "endsWith ''https://example.com/doc.pdf'' ''.pdf''
   \<and> getExistingPdfUrl unreachable_site (JStr ''https://example.com/doc.pdf'')
       = (Inr (Some ''https://example.com/doc.pdf''), [])"
  using pdf_suffix_short_circuit [of "''https://example.com/doc.pdf''" unreachable_site]
  by (simp add: endsWith_def)

text \<open>
  C7, as stated, fails: the extension check comes first. A URL on \<open>arxiv.org\<close> whose path is
  \<open>/abs/2101.00001\<close> but which ends with \<open>.pdf\<close> is returned as it is, and so is the common
  form \<open>https://arxiv.org/pdf/2101.00001.pdf\<close>, whose path the pattern matches as well.
\<close>

theorem arxiv_url_with_pdf_suffix_unchanged:
  "map_option hostname (newURL html_site ''https://arxiv.org/abs/2101.00001?file=2101.00001.pdf'')
     = Some ''arxiv.org''
   \<and> map_option pathname (newURL html_site ''https://arxiv.org/abs/2101.00001?file=2101.00001.pdf'')
     = Some ''/abs/2101.00001''
   \<and> getExistingPdfUrl html_site (JStr ''https://arxiv.org/abs/2101.00001?file=2101.00001.pdf'')
     = (Inr (Some ''https://arxiv.org/abs/2101.00001?file=2101.00001.pdf''), [])
   \<and> map_option (arxivIdPattern \<circ> pathname) (newURL html_site ''https://arxiv.org/pdf/2101.00001.pdf'')
     = Some (Some ''2101.00001'')
   \<and> getExistingPdfUrl html_site (JStr ''https://arxiv.org/pdf/2101.00001.pdf'')
     = (Inr (Some ''https://arxiv.org/pdf/2101.00001.pdf''), [])"
  by (simp add: resolver_eval html_site_def)

text \<open>
  C7, amended. For every URL string that does not end with \<open>.pdf\<close>, parses with host
  \<open>arxiv.org\<close>, and whose path starts with \<open>/abs/\<close> or \<open>/pdf/\<close> followed by an id of digits,
  a dot, digits (the id being the longest such), the resolver returns
  \<open>https://arxiv.org/pdf/<id>\<close> and issues no request; in particular when the path is
  exactly \<open>/abs/<id>\<close> or \<open>/pdf/<id>\<close>.
\<close>

theorem arxiv_rewrite:
  assumes "newURL net raw_url = Some u" and "hostname u = ''arxiv.org''"
    and "\<not> endsWith raw_url ''.pdf''"
  shows "(arxivIdPattern (pathname u) = Some arxivId \<longrightarrow>
            getExistingPdfUrl net (JStr raw_url)
              = (Inr (Some (''https://arxiv.org/pdf/'' @ arxivId)), []))
       \<and> ((pre = ''/abs/'' \<or> pre = ''/pdf/'') \<and> a \<noteq> [] \<and> b \<noteq> []
            \<and> (\<forall>c \<in> set (a @ b). isDigit c) \<and> pathname u = pre @ a @ ''.'' @ b \<longrightarrow>
            getExistingPdfUrl net (JStr raw_url)
              = (Inr (Some (''https://arxiv.org/pdf/'' @ a @ ''.'' @ b)), []))"
  using arxiv_known_site [OF assms(1,2) _ assms(3)] arxivIdPattern_exact [of pre a b]
  by metis

theorem arxiv_rewrite_witness:
  "newURL html_site ''https://arxiv.org/abs/2101.00001''
     = Some \<lparr>scheme = ''https'', credentials = [], hostname = ''arxiv.org'', port = [],
             pathname = ''/abs/2101.00001'', query = None, fragment = None\<rparr>
   \<and> \<not> endsWith ''https://arxiv.org/abs/2101.00001'' ''.pdf''
   \<and> list_all isDigit (''2101'' @ ''00001'')
   \<and> getExistingPdfUrl html_site (JStr ''https://arxiv.org/abs/2101.00001'')
       = (Inr (Some ''https://arxiv.org/pdf/2101.00001''), [])"
proof -
  have p: "newURL html_site ''https://arxiv.org/abs/2101.00001''
     = Some \<lparr>scheme = ''https'', credentials = [], hostname = ''arxiv.org'', port = [],
             pathname = ''/abs/2101.00001'', query = None, fragment = None\<rparr>"
    by (simp add: html_site_def simple_url_def startsWith_def toLowerCase_def lowerChar_def)
  have e: "\<not> endsWith ''https://arxiv.org/abs/2101.00001'' ''.pdf''"
    by (simp add: endsWith_def)
  have d: "\<forall>c \<in> set (''2101'' @ ''00001''). isDigit c"
    by (simp add: isDigit_def)
  show ?thesis
    using arxiv_rewrite [OF p _ e, of "''2101.00001''" "''/abs/''" "''2101''" "''00001''"] p e d
    by (simp add: list_all_iff)
qed

text \<open>
  C8: the code departs from the claim for a response that carries no \<open>content-type\<close> header.
  \<open>headers.get\<close> then gives \<open>null\<close>, \<open>toLowerCase\<close> on it throws, and the resolver fails with a
  \<open>TypeError\<close> where the claim has it return \<open>null\<close>.
\<close>

theorem probe_without_content_type_throws:
  "getExistingPdfUrl bare_site (JStr ''https://example.com/page'')
     = (Inl TypeError, [''https://example.com/page''])"
  by (simp add: resolver_eval bare_site_def)

section \<open>The routes\<close>

lemma redirectOrRender_no_http_error:
  "fst (redirectOrRender net b opts) \<noteq> Inl (HttpError s m)"
proof -
  obtain r heads where g: "getExistingPdfUrl net (getProp opts ''url'') = (r, heads)"
    by (cases "getExistingPdfUrl net (getProp opts ''url'')")
  obtain r' calls where rr: "render b opts = (r', calls)"
    by (cases "render b opts")
  from g have 1: "r \<noteq> Inl (HttpError s m)"
    using getExistingPdfUrl_no_http_error [of net "getProp opts ''url''" s m] by simp
  from rr have 2: "r' \<noteq> Inl (HttpError s m)"
    using render_no_http_error [of b opts s m] by simp
  show ?thesis using 1 2
    by (auto simp: redirectOrRender_def g rr split: sum.splits option.splits)
qed

lemma redirectOrRender_without_url:
  "\<not> isString (getProp opts ''url'') \<Longrightarrow> redirectOrRender net b opts = (Inl TypeError, [], [])"
  by (simp add: redirectOrRender_def getExistingPdfUrl_not_string)

text \<open>
  C9. For every POST request whose content-type header is exactly \<open>application/json\<close>, the
  handler fails with status 400 and the message \<open>Body must contain url or html\<close> if and only
  if neither \<open>url\<close> nor \<open>html\<close> of the body is a string; and when one of them is, it raises no
  error with an HTTP status at all.
\<close>

theorem postRender_json_validation:
  assumes "contentType req = JStr ''application/json''"
  shows "((fst (postRender net b req) = Inl (HttpError 400 ''Body must contain url or html''))
          = (\<not> isString (get_path (body req) [''url''])
             \<and> \<not> isString (get_path (body req) [''html''])))
       \<and> (isString (get_path (body req) [''url'']) \<or> isString (get_path (body req) [''html''])
            \<longrightarrow> fst (postRender net b req) \<noteq> Inl (HttpError s m))"
  using assms redirectOrRender_no_http_error
  by (auto simp: postRender_def throwStatus_def Let_def)

theorem postRender_json_validation_witness:
  "fst (postRender html_site steady_browser
          \<lparr>contentType = JStr ''application/json'', body = JObj [], queryParams = []\<rparr>)
     = Inl (HttpError 400 ''Body must contain url or html'')
   \<and> fst (postRender html_site steady_browser
          \<lparr>contentType = JStr ''application/json'',
           body = JObj [(''url'', JStr ''https://example.com/page'')], queryParams = []\<rparr>)
     \<noteq> Inl (HttpError 400 ''Body must contain url or html'')"
  using postRender_json_validation
          [of "\<lparr>contentType = JStr ''application/json'', body = JObj [], queryParams = []\<rparr>"
              html_site steady_browser 400 "''Body must contain url or html''"]
        postRender_json_validation
          [of "\<lparr>contentType = JStr ''application/json'',
                body = JObj [(''url'', JStr ''https://example.com/page'')], queryParams = []\<rparr>"
              html_site steady_browser 400 "''Body must contain url or html''"]
  by (simp add: getProp_def)

text \<open>
  C10. A POST request that supplies \<open>html\<close> and no \<open>url\<close>, be it a JSON body with a string
  \<open>html\<close> and no \<open>url\<close> key, or any other body with no \<open>url\<close> query parameter, fails with the
  \<open>TypeError\<close> of \<open>getExistingPdfUrl\<close>: no HEAD request is issued and no browser call is made,
  so \<open>render\<close> is never reached.
\<close>

theorem postRender_html_only_throws:
  "(contentType req = JStr ''application/json'' \<and> body req = JObj kvs
      \<and> map_of kvs ''html'' = Some (JStr h) \<and> map_of kvs ''url'' = None
    \<longrightarrow> postRender net b req = (Inl TypeError, [], []))
   \<and> (contentType req \<noteq> JStr ''application/json'' \<and> map_of (queryParams req) ''url'' = None
    \<longrightarrow> postRender net b req = (Inl TypeError, [], []))"
  by (auto simp: postRender_def throwStatus_def Let_def getProp_def
        redirectOrRender_without_url getOptsFromQuery_def update_conv)

theorem postRender_html_only_throws_witness:
  "postRender html_site steady_browser
     \<lparr>contentType = JStr ''application/json'',
      body = JObj [(''html'', JStr ''<h1>Hello</h1>'')], queryParams = []\<rparr>
     = (Inl TypeError, [], [])
   \<and> postRender html_site steady_browser
     \<lparr>contentType = JStr ''text/html'', body = JStr ''<h1>Hello</h1>'', queryParams = []\<rparr>
     = (Inl TypeError, [], [])"
  using postRender_html_only_throws
          [of "\<lparr>contentType = JStr ''application/json'',
                body = JObj [(''html'', JStr ''<h1>Hello</h1>'')], queryParams = []\<rparr>"
              "[(''html'', JStr ''<h1>Hello</h1>'')]" "''<h1>Hello</h1>''"
              html_site steady_browser]
        postRender_html_only_throws
          [of "\<lparr>contentType = JStr ''text/html'', body = JStr ''<h1>Hello</h1>'',
                queryParams = []\<rparr>"
              "[]" "[]" html_site steady_browser]
  by simp

text \<open>
  A GET request with \<open>emulateScreenMedia=true\<close>: one HEAD request, then a render in which
  \<open>page.emulateMedia\<close> is not called.
\<close>

lemma getRender_emulateScreenMedia:
  "getRender html_site steady_browser
     \<lparr>contentType = JUndefined, body = JUndefined,
      queryParams = [(''url'', JStr ''https://example.com/page''),
                     (''emulateScreenMedia'', JStr ''true'')]\<rparr> =
   (Inr (SendPdf None ''%PDF-1.4''), [''https://example.com/page''],
    [Launch, NewPage,
     SetViewport
      (JObj [(''width'', JNum 1600), (''height'', JNum 1200),
             (''deviceScaleFactor'', JUndefined), (''isMobile'', JUndefined),
             (''hasTouch'', JUndefined), (''isLandscape'', JUndefined)]),
     Goto (JStr ''https://example.com/page'')
      (JObj [(''waitUntil'', JStr ''networkidle''), (''networkIdleTimeout'', JNum 2000),
             (''timeout'', JUndefined), (''networkIdleInflight'', JUndefined)]),
     PdfExport
      (JObj [(''format'', JStr ''A4''), (''printBackground'', JBool True),
             (''scale'', JUndefined), (''displayHeaderFooter'', JUndefined),
             (''landscape'', JUndefined), (''pageRanges'', JUndefined),
             (''width'', JUndefined), (''height'', JUndefined),
             (''margin'', JObj [(''top'', JUndefined), (''right'', JUndefined),
                                (''bottom'', JUndefined), (''left'', JUndefined)])]),
     Close])"
  by code_simp

section \<open>The scroll function\<close>

lemma eventLoop_settled: "promise w \<noteq> None \<Longrightarrow> eventLoop pg w = Some w"
  by (subst eventLoop.simps) simp

lemma eventLoop_pending:
  "promise w = None \<Longrightarrow>
   eventLoop pg w = (case fireNext pg w of None \<Rightarrow> None | Some w' \<Rightarrow> eventLoop pg w')"
  by (subst eventLoop.simps) simp

text \<open>The first run of \<open>scrollDown\<close>, made by the executor itself at time 0.\<close>

lemma first_run:
  "scrollDown pg (setTimeout CbReject 30000
      \<lparr>now = 0, timers = [], pageYOffset = initialOffset pg, runs = 0, promise = None\<rparr>)
   = (if stopsAt pg 0 then settling 0 else scrolling pg 1)"
  by (simp add: scrollDown_def setTimeout_def scrollBy_def scrollTo_def bottomPos_def
        stopsAt_def remaining_def settling_def scrolling_def Let_def)

text \<open>Before 30000ms the next timer is the next run of \<open>scrollDown\<close>.\<close>

lemma next_run:
  assumes "1 \<le> k" and "k < 150"
  shows "fireNext pg (scrolling pg k)
           = Some (if stopsAt pg k then settling k else scrolling pg (Suc k))"
  using assms
  by (simp add: fireNext_def runCallback_def scrollDown_def setTimeout_def scrollBy_def
        scrollTo_def bottomPos_def stopsAt_def remaining_def settling_def scrolling_def Let_def)

text \<open>
  Once a run has stopped, \<open>resolve\<close> is due 500ms later and \<open>reject\<close> at 30000ms: resolve
  comes first exactly when \<open>200 * k + 500 < 30000\<close>, that is for \<open>k \<le> 147\<close>.
\<close>

lemma settling_fires:
  assumes "k < 150"
  shows "fireNext pg (settling k) =
     Some (if k \<le> 147
           then \<lparr>now = 200 * k + 500, timers = [(30000, CbReject)], pageYOffset = 0,
                 runs = Suc k, promise = Some (Resolved, 200 * k + 500)\<rparr>
           else \<lparr>now = 30000, timers = [(200 * k + 500, CbResolve)], pageYOffset = 0,
                 runs = Suc k, promise = Some (Rejected, 30000)\<rparr>)"
  using assms by (simp add: settling_def fireNext_def runCallback_def settle_def)

lemma settling_outcome:
  assumes "k < 150"
  shows "eventLoop pg (settling k) =
     Some (if k \<le> 147
           then \<lparr>now = 200 * k + 500, timers = [(30000, CbReject)], pageYOffset = 0,
                 runs = Suc k, promise = Some (Resolved, 200 * k + 500)\<rparr>
           else \<lparr>now = 30000, timers = [(200 * k + 500, CbResolve)], pageYOffset = 0,
                 runs = Suc k, promise = Some (Rejected, 30000)\<rparr>)"
proof -
  have "promise (settling k) = None" by (simp add: settling_def)
  then show ?thesis
    by (simp add: eventLoop_pending settling_fires [OF assms] eventLoop_settled)
qed

text \<open>At 30000ms \<open>reject\<close>, set first, runs before the run of \<open>scrollDown\<close> due then.\<close>

lemma deadline_fires:
  "fireNext pg (scrolling pg 150) =
     Some \<lparr>now = 30000, timers = [(30000, CbScrollDown)], pageYOffset = offsetAfter pg 150,
           runs = 150, promise = Some (Rejected, 30000)\<rparr>"
  by (simp add: scrolling_def fireNext_def runCallback_def settle_def)

lemma deadline_outcome:
  "eventLoop pg (scrolling pg 150) =
     Some \<lparr>now = 30000, timers = [(30000, CbScrollDown)], pageYOffset = offsetAfter pg 150,
           runs = 150, promise = Some (Rejected, 30000)\<rparr>"
proof -
  have "promise (scrolling pg 150) = None" by (simp add: scrolling_def)
  then show ?thesis
    by (simp add: eventLoop_pending deadline_fires eventLoop_settled)
qed

lemma scrolling_step:
  assumes "1 \<le> k" and "k < 150"
  shows "eventLoop pg (scrolling pg k) =
           eventLoop pg (if stopsAt pg k then settling k else scrolling pg (Suc k))"
proof -
  have "promise (scrolling pg k) = None" by (simp add: scrolling_def)
  then show ?thesis
    by (simp add: eventLoop_pending next_run [OF assms])
qed

lemma resolves_from:
  assumes "stopsAt pg n" and "n \<le> 147"
  shows "1 \<le> k \<Longrightarrow> k \<le> n \<Longrightarrow> (\<forall>j. k \<le> j \<and> j < n \<longrightarrow> \<not> stopsAt pg j) \<Longrightarrow>
         eventLoop pg (scrolling pg k) =
           Some \<lparr>now = 200 * n + 500, timers = [(30000, CbReject)], pageYOffset = 0,
                 runs = Suc n, promise = Some (Resolved, 200 * n + 500)\<rparr>"
proof (induction "n - k" arbitrary: k)
  case 0
  then have "k = n" by simp
  then show ?case
    using assms 0 by (simp add: scrolling_step settling_outcome)
next
  case (Suc d)
  then have "k < n" and "\<not> stopsAt pg k" by auto
  moreover have "eventLoop pg (scrolling pg (Suc k)) =
           Some \<lparr>now = 200 * n + 500, timers = [(30000, CbReject)], pageYOffset = 0,
                 runs = Suc n, promise = Some (Resolved, 200 * n + 500)\<rparr>"
    using Suc by (intro Suc.hyps(1)) auto
  ultimately show ?case
    using assms(2) Suc.prems(1) by (simp add: scrolling_step)
qed

lemma rejects_from:
  "1 \<le> k \<Longrightarrow> k \<le> 150 \<Longrightarrow> (\<forall>j. k \<le> j \<and> j \<le> 147 \<longrightarrow> \<not> stopsAt pg j) \<Longrightarrow>
   map_option promise (eventLoop pg (scrolling pg k)) = Some (Some (Rejected, 30000))"
proof (induction "150 - k" arbitrary: k)
  case 0
  then have "k = 150" by simp
  then show ?case by (simp add: deadline_outcome)
next
  case (Suc d)
  then have k: "k < 150" by simp
  have ih: "map_option promise (eventLoop pg (scrolling pg (Suc k)))
              = Some (Some (Rejected, 30000))"
    using Suc by (intro Suc.hyps(1)) auto
  show ?case
  proof (cases "stopsAt pg k")
    case True
    with Suc.prems(3) have "\<not> k \<le> 147" using Suc.prems(1) by auto
    then show ?thesis using True k Suc.prems(1)
      by (simp add: scrolling_step settling_outcome)
  next
    case False
    then show ?thesis using ih k Suc.prems(1) by (simp add: scrolling_step)
  qed
qed

lemma pageScroll_first:
  "pageScroll pg = eventLoop pg (if stopsAt pg 0 then settling 0 else scrolling pg 1)"
  by (simp only: pageScroll_def first_run)

lemma pageScroll_resolves:
  assumes "stopsAt pg n" and "\<forall>k<n. \<not> stopsAt pg k" and "n \<le> 147"
  shows "pageScroll pg =
           Some \<lparr>now = 200 * n + 500, timers = [(30000, CbReject)], pageYOffset = 0,
                 runs = Suc n, promise = Some (Resolved, 200 * n + 500)\<rparr>"
proof (cases n)
  case 0
  then show ?thesis using assms(1) by (simp add: pageScroll_first settling_outcome)
next
  case (Suc m)
  then have "\<not> stopsAt pg 0" using assms(2) by simp
  moreover have "eventLoop pg (scrolling pg 1) =
           Some \<lparr>now = 200 * n + 500, timers = [(30000, CbReject)], pageYOffset = 0,
                 runs = Suc n, promise = Some (Resolved, 200 * n + 500)\<rparr>"
    using assms Suc by (intro resolves_from) auto
  ultimately show ?thesis by (simp add: pageScroll_first)
qed

lemma pageScroll_rejects:
  assumes "\<forall>k\<le>147. \<not> stopsAt pg k"
  shows "map_option promise (pageScroll pg) = Some (Some (Rejected, 30000))"
proof -
  have "\<not> stopsAt pg 0" using assms by simp
  moreover have "map_option promise (eventLoop pg (scrolling pg 1))
                   = Some (Some (Rejected, 30000))"
    using assms by (intro rejects_from) auto
  ultimately show ?thesis by (simp add: pageScroll_first)
qed

subsection \<open>The three pages\<close>

lemma short_page_stops: "\<not> stopsAt short_page 0" "stopsAt short_page 1"
  by (simp_all add: stopsAt_def remaining_def short_page_def)

lemma endless_feed_offset: "offsetAfter endless_feed k = 800 * int k"
  by (induction k) (simp_all add: endless_feed_def)

lemma endless_feed_never_stops: "\<not> stopsAt endless_feed k"
  by (simp add: stopsAt_def remaining_def endless_feed_offset) (simp add: endless_feed_def)

lemma tall_page_offset: "k \<le> 248 \<Longrightarrow> offsetAfter tall_page k = 800 * int k"
  by (induction k) (simp_all add: tall_page_def)

lemma tall_page_late: "k \<le> 247 \<Longrightarrow> \<not> stopsAt tall_page k"
  by (simp add: stopsAt_def remaining_def tall_page_offset del: offsetAfter.simps)
     (simp add: tall_page_def)

lemma tall_page_bottom: "offsetAfter tall_page (Suc 248) = 198800"
proof -
  have "offsetAfter tall_page (Suc 248) =
          max 0 (min (offsetAfter tall_page 248 + (innerHeight tall_page - 400))
                     (scrollHeight tall_page 248 - innerHeight tall_page))"
    by (rule offsetAfter.simps(2))
  also have "\<dots> = 198800"
    by (simp add: tall_page_offset) (simp add: tall_page_def)
  finally show ?thesis .
qed

lemma tall_page_stops: "stopsAt tall_page 248"
  unfolding stopsAt_def remaining_def
  by (simp only: tall_page_bottom) (simp add: tall_page_def)

text \<open>
  C5, as stated, fails. In a document of 200000px and a window of 1200px the steps do bring
  the distance to the bottom below 400px, at the 249th run of \<open>scrollDown\<close>; that run would be
  due at 49600ms, and the promise is rejected at 30000ms.
\<close>

theorem tall_page_times_out:
  "stopsAt tall_page 248
   \<and> map_option promise (pageScroll tall_page) = Some (Some (Rejected, 30000))"
proof -
  have "\<forall>k\<le>147. \<not> stopsAt tall_page k" using tall_page_late by simp
  then show ?thesis using tall_page_stops pageScroll_rejects by simp
qed

text \<open>
  C5, amended. Runs of \<open>scrollDown\<close> are counted from 0; run \<open>n\<close> takes place at \<open>200 * n\<close> ms.
  For every page on which the stop condition first holds at a run \<open>n \<le> 147\<close> (so that
  \<open>200 * n + 500 < 30000\<close>), the function sets the scroll offset to 0, waits 500ms and its
  promise is resolved, at \<open>200 * n + 500\<close> ms. For every page on which the stop condition
  does not hold at any of the runs 0 to 147, be it never or only later, the promise is
  rejected at 30000ms. In both cases \<open>page.evaluate\<close> returns.
\<close>

theorem page_scroll_outcome:
  "(stopsAt pg n \<and> (\<forall>k<n. \<not> stopsAt pg k) \<and> n \<le> 147 \<longrightarrow>
      pageScroll pg =
        Some \<lparr>now = 200 * n + 500, timers = [(30000, CbReject)], pageYOffset = 0,
              runs = Suc n, promise = Some (Resolved, 200 * n + 500)\<rparr>)
   \<and> ((\<forall>k\<le>147. \<not> stopsAt pg k) \<longrightarrow>
        map_option promise (pageScroll pg) = Some (Some (Rejected, 30000)))"
  using pageScroll_resolves [of pg n] pageScroll_rejects [of pg] by blast

theorem page_scroll_outcome_witness:
  "stopsAt short_page 1
   \<and> pageScroll short_page =
     Some \<lparr>now = 700, timers = [(30000, CbReject)], pageYOffset = 0,
           runs = 2, promise = Some (Resolved, 700)\<rparr>
   \<and> map_option promise (pageScroll endless_feed) = Some (Some (Rejected, 30000))"
proof -
  have "stopsAt short_page 1 \<and> (\<forall>k<1. \<not> stopsAt short_page k) \<and> (1::nat) \<le> 147"
    using short_page_stops by simp
  moreover have "\<forall>k\<le>147. \<not> stopsAt endless_feed k"
    by (simp add: endless_feed_never_stops)
  ultimately show ?thesis
    using page_scroll_outcome [of short_page 1] page_scroll_outcome [of endless_feed 0]
    by simp
qed

end
